theory Spec2Isabelle
  imports Complex_Main "HOL-Library.AList"
begin

section \<open>Strings, paths and the file system\<close>

text \<open>
  A Python \<open>str\<close> is modelled as a \<open>string\<close> whose characters are the code points
  below 256: the Portuguese sentences of the narration need nothing beyond Latin-1.
  The accented letters are written by code point.
\<close>

type_synonym path = string

abbreviation a_acute :: char where "a_acute \<equiv> CHR 0xE1"
abbreviation a_tilde :: char where "a_tilde \<equiv> CHR 0xE3"
abbreviation c_cedilla :: char where "c_cedilla \<equiv> CHR 0xE7"
abbreviation e_acute :: char where "e_acute \<equiv> CHR 0xE9"
abbreviation e_circ :: char where "e_circ \<equiv> CHR 0xEA"
abbreviation o_circ :: char where "o_circ \<equiv> CHR 0xF4"
abbreviation u_acute :: char where "u_acute \<equiv> CHR 0xFA"

text \<open>\<open>str(i)\<close> for a page index: the decimal digits, most significant first.\<close>

definition digit_char :: "nat \<Rightarrow> char" where
  "digit_char d = ''0123456789'' ! d"

fun str_nat :: "nat \<Rightarrow> string" where
  "str_nat n = (if n < 10 then [digit_char n] else str_nat (n div 10) @ [digit_char (n mod 10)])"

declare str_nat.simps [simp del]

text \<open>\<open>str.strip()\<close> removes the characters for which \<open>str.isspace\<close> holds from both ends;
  \<open>str.replace(" ", "_")\<close> rewrites every space.\<close>

definition py_isspace :: "char \<Rightarrow> bool" where
  "py_isspace c = (of_char c \<in> {9, 10, 11, 12, 13, 28, 29, 30, 31, 32, 133, 160 :: nat})"

definition strip :: "string \<Rightarrow> string" where
  "strip s = rev (dropWhile py_isspace (rev (dropWhile py_isspace s)))"

definition replace_space :: "string \<Rightarrow> string" where
  "replace_space s = map (\<lambda>c. if c = CHR '' '' then CHR ''_'' else c) s"

text \<open>\<open>str.rfind\<close>: the highest index of the character, or -1.\<close>

definition rfind :: "string \<Rightarrow> char \<Rightarrow> int" where
  "rfind s c = (if c \<in> set s
                then int (length s) - 1 - int (length (takeWhile (\<lambda>x. x \<noteq> c) (rev s)))
                else - 1)"

text \<open>\<open>os.path.splitext\<close> (posixpath): the extension starts at the last dot, if that dot
  comes after the last separator and some character between the two is not a dot.\<close>

definition os_path_splitext :: "path \<Rightarrow> path \<times> string" where
  "os_path_splitext p =
     (let sepIndex = rfind p CHR ''/''; dotIndex = rfind p CHR ''.''
      in if dotIndex > sepIndex \<and>
            (\<exists>k \<in> set [nat (sepIndex + 1) ..< nat dotIndex]. p ! k \<noteq> CHR ''.'')
         then (take (nat dotIndex) p, drop (nat dotIndex) p)
         else (p, []))"

text \<open>\<open>os.path.join\<close> (posixpath) of two components.\<close>

definition os_path_join :: "path \<Rightarrow> path \<Rightarrow> path" where
  "os_path_join a b =
     (if b \<noteq> [] \<and> hd b = CHR ''/'' then b
      else if a = [] \<or> last a = CHR ''/'' then a @ b
      else a @ ''/'' @ b)"

text \<open>
  Python exceptions are values. \<open>Exception\<close> is the one \<open>process_pdf\<close> raises itself,
  \<open>CalledProcessError\<close> what \<open>subprocess.run(check=True)\<close> raises on a non-zero exit
  status, \<open>FileNotFoundError\<close> what \<open>os.remove\<close> and file opening raise,
  \<open>ZeroDivisionError\<close> and \<open>OverflowError\<close> what the division of two integers raises, and
  \<open>LibraryError\<close> stands for any exception class of music21, pyttsx3 or pydub.
\<close>

datatype exn =
    Exception string
  | CalledProcessError int string
  | FileNotFoundError path
  | ZeroDivisionError
  | OverflowError
  | LibraryError string

text \<open>
  A pydub \<open>AudioSegment\<close> is indexed by milliseconds: it is modelled as the list of its
  millisecond slices, so that \<open>len\<close> is the duration in ms, \<open>+\<close> is concatenation and
  \<open>AudioSegment.silent(duration=d)\<close> is \<open>d\<close> silent slices.
\<close>

type_synonym AudioSegment = "int list"

definition silent :: "nat \<Rightarrow> AudioSegment" where
  "silent duration = replicate duration 0"

text \<open>A file holds waveform audio or any other data (a PNG raster, MusicXML, MIDI).\<close>

datatype content = Wav AudioSegment | Data

text \<open>
  The world the program runs in: the files that exist, and the calls made so far to the
  rasterizer and to subprocesses (the command line of each), oldest first.
\<close>

datatype call = Convert_from_path path | Subprocess_run string

record world =
  files :: "path \<rightharpoonup> content"
  calls :: "call list"

definition os_path_exists :: "path \<Rightarrow> world \<Rightarrow> bool" where
  "os_path_exists f w = (files w f \<noteq> None)"

definition os_remove :: "path \<Rightarrow> world \<Rightarrow> exn + world" where
  "os_remove f w =
     (if os_path_exists f w then Inr (w\<lparr>files := (files w)(f := None)\<rparr>)
      else Inl (FileNotFoundError f))"

definition write_file :: "path \<Rightarrow> content \<Rightarrow> world \<Rightarrow> world" where
  "write_file f c w = w\<lparr>files := (files w)(f \<mapsto> c)\<rparr>"

text \<open>A tool that leaves its output file behind, or leaves nothing.\<close>

definition tool_output :: "path \<Rightarrow> content option \<Rightarrow> world \<Rightarrow> world" where
  "tool_output f out w = (case out of None \<Rightarrow> w | Some c \<Rightarrow> write_file f c w)"

text \<open>
  \<open>subprocess.run(cmd, shell=True, check=True)\<close>: the command is run (and recorded), and a
  non-zero exit status raises \<open>CalledProcessError\<close>. What the command does to the files
  is applied by the caller through \<open>tool_output\<close>.
\<close>

definition subprocess_run :: "string \<Rightarrow> int \<Rightarrow> world \<Rightarrow> (exn + unit) \<times> world" where
  "subprocess_run cmd returncode w =
     (let w' = w\<lparr>calls := calls w @ [Subprocess_run cmd]\<rparr>
      in if returncode \<noteq> 0 then (Inl (CalledProcessError returncode cmd), w')
         else (Inr (), w'))"

definition from_wav :: "path \<Rightarrow> world \<Rightarrow> exn + AudioSegment" where
  "from_wav f w =
     (case files w f of
        None \<Rightarrow> Inl (FileNotFoundError f)
      | Some Data \<Rightarrow> Inl (LibraryError ''CouldntDecodeError'')
      | Some (Wav a) \<Rightarrow> Inr a)"

section \<open>The page classifier\<close>

text \<open>
  Python's \<open>float\<close> is IEEE-754 binary64. A finite double is a rational number, and is
  modelled as that number. The quotient \<open>a / b\<close> of two non-negative integers is the
  double nearest to the exact quotient, ties going to the even significand; the literal
  \<open>0.01\<close> is the double nearest to 1/100; \<open>>\<close> compares the two values.

  \<open>floor_log2 n\<close> is the position of the highest bit of \<open>n\<close>, and \<open>exponent a b\<close> the
  \<open>e\<close> with \<open>2\<^sup>e \<le> a / b < 2\<^sup>e\<^sup>+\<^sup>1\<close>. A double of that exponent is a multiple of
  \<open>2\<^sup>e\<^sup>-\<^sup>5\<^sup>2\<close>; below \<open>2\<^sup>-\<^sup>1\<^sup>0\<^sup>2\<^sup>2\<close> the spacing stays that of the smallest normal
  exponent. A quotient that rounds to \<open>2\<^sup>1\<^sup>0\<^sup>2\<^sup>4\<close> or more has no double.
\<close>

fun floor_log2 :: "nat \<Rightarrow> nat" where
  "floor_log2 n = (if n < 2 then 0 else Suc (floor_log2 (n div 2)))"

declare floor_log2.simps [simp del]

definition exponent :: "nat \<Rightarrow> nat \<Rightarrow> int" where
  "exponent a b =
     (let e = int (floor_log2 a) - int (floor_log2 b)
      in if 2 powi e * of_nat b \<le> (of_nat a :: rat) then e else e - 1)"

definition round_half_even :: "rat \<Rightarrow> int" where
  "round_half_even x =
     (let f = \<lfloor>x\<rfloor>; r = x - of_int f
      in if r < 1 / 2 then f else if 1 / 2 < r then f + 1 else if even f then f else f + 1)"

definition nearest_binary64 :: "nat \<Rightarrow> nat \<Rightarrow> rat option" where
  "nearest_binary64 a b =
     (if a = 0 then Some 0
      else (let e = max (exponent a b) (- 1022);
                ulp = 2 powi (e - 52);
                r = of_int (round_half_even (of_nat a / of_nat b / ulp)) * ulp
            in if r < 2 powi 1024 then Some r else None))"

text \<open>\<open>a / b\<close> on two \<open>int\<close>s that are not negative.\<close>

definition true_divide :: "nat \<Rightarrow> nat \<Rightarrow> exn + rat" where
  "true_divide a b =
     (if b = 0 then Inl ZeroDivisionError
      else (case nearest_binary64 a b of None \<Rightarrow> Inl OverflowError | Some r \<Rightarrow> Inr r))"

text \<open>The literal \<open>0.01\<close>.\<close>

definition float_0_01 :: rat where
  "float_0_01 = (case nearest_binary64 1 100 of Some r \<Rightarrow> r | None \<Rightarrow> 0)"

text \<open>
  The OpenCV routines that \<open>is_sheet_music\<close> calls are not code of this repository: they
  are parameters, over any type of colour image, of grey image and of structuring element.
  \<^item> \<open>cvtColor_BGR2GRAY\<close>: \<open>cv2.cvtColor(image, cv2.COLOR_BGR2GRAY)\<close>;
  \<^item> \<open>threshold_BINARY_INV\<close>: the image of \<open>cv2.threshold(gray, thresh, maxval,
    cv2.THRESH_BINARY_INV)\<close>;
  \<^item> \<open>getStructuringElement_RECT\<close>: \<open>cv2.getStructuringElement(cv2.MORPH_RECT, size)\<close>;
  \<^item> \<open>morphologyEx_OPEN\<close>: \<open>cv2.morphologyEx(src, cv2.MORPH_OPEN, kernel, iterations)\<close>;
  \<^item> \<open>countNonZero\<close>: \<open>cv2.countNonZero\<close>;
  \<^item> \<open>shape\<close>: \<open>image.shape[0]\<close> and \<open>image.shape[1]\<close>, the rows and columns of the array.
\<close>

record ('image, 'gray, 'kernel) cv2 =
  cvtColor_BGR2GRAY :: "'image \<Rightarrow> 'gray"
  threshold_BINARY_INV :: "'gray \<Rightarrow> nat \<Rightarrow> nat \<Rightarrow> 'gray"
  getStructuringElement_RECT :: "nat \<times> nat \<Rightarrow> 'kernel"
  morphologyEx_OPEN :: "'gray \<Rightarrow> 'kernel \<Rightarrow> nat \<Rightarrow> 'gray"
  countNonZero :: "'gray \<Rightarrow> nat"
  shape :: "'image \<Rightarrow> nat \<times> nat"

definition is_sheet_music :: "('image, 'gray, 'kernel) cv2 \<Rightarrow> 'image \<Rightarrow> exn + bool" where
  "is_sheet_music cv img =
     (let gray = cvtColor_BGR2GRAY cv img;
          thresh = threshold_BINARY_INV cv gray 127 255;
          horizontal_kernel = getStructuringElement_RECT cv (25, 1);
          detected_lines = morphologyEx_OPEN cv thresh horizontal_kernel 2;
          line_pixels = countNonZero cv detected_lines;
          total_pixels = fst (shape cv img) * snd (shape cv img)
      in case true_divide line_pixels total_pixels of
           Inl e \<Rightarrow> Inl e
         | Inr ratio \<Rightarrow> Inr (float_0_01 < ratio))"

section \<open>The symbolic score and the narration text\<close>

text \<open>
  What \<open>generate_narration_text\<close> and the title resolution observe of a music21 score:
  \<^item> \<open>metadata\<close>: \<open>score.metadata\<close> (\<open>None\<close> when absent) and its \<open>title\<close> (a \<open>str\<close> or \<open>None\<close>);
  \<^item> \<open>analyze_key\<close>: \<open>score.analyze('key')\<close>, which raises or gives a key, of which the
    tonic name and the mode are read;
  \<^item> \<open>time_signatures\<close>: \<open>score.recurse().getElementsByClass(meter.TimeSignature)\<close>, which
    raises or gives the signatures in document order, by their \<open>ratioString\<close>;
  \<^item> \<open>metronome_marks\<close>: the same for \<open>'MetronomeMark'\<close>, by their \<open>number\<close>.
  A metronome mark's number is \<open>None\<close>, an \<open>int\<close> or a \<open>float\<close>; a float is kept as its
  \<open>repr\<close>, which is all the f-string and the truth test look at.
\<close>

datatype number = PyInt int | PyFloat string

record score =
  metadata :: "string option option"
  analyze_key :: "exn + string \<times> string"
  time_signatures :: "exn + string list"
  metronome_marks :: "exn + number option list"

definition str_int :: "int \<Rightarrow> string" where
  "str_int n = (if n < 0 then ''-'' @ str_nat (nat (- n)) else str_nat (nat n))"

text \<open>What the f-string writes for \<open>mm.number\<close>.\<close>

fun format_number :: "number option \<Rightarrow> string" where
  "format_number None = ''None''"
| "format_number (Some (PyInt n)) = str_int n"
| "format_number (Some (PyFloat r)) = r"

text \<open>The truth value of \<open>mm.number\<close>: \<open>None\<close>, \<open>0\<close> and \<open>0.0\<close> are false.\<close>

fun truthy :: "number option \<Rightarrow> bool" where
  "truthy None = False"
| "truthy (Some (PyInt n)) = (n \<noteq> 0)"
| "truthy (Some (PyFloat r)) = (r \<noteq> ''0.0'' \<and> r \<noteq> ''-0.0'')"

definition key_fallback :: string where
  "key_fallback = ''A tonalidade da pe'' @ [c_cedilla] @ ''a n'' @ [a_tilde] @ ''o p'' @ [o_circ]
                  @ ''de ser determinada. ''"

definition time_signature_fallback :: string where
  "time_signature_fallback = ''O compasso n'' @ [a_tilde] @ ''o foi identificado. ''"

definition tempo_fallback :: string where
  "tempo_fallback = ''O andamento n'' @ [a_tilde] @ ''o foi identificado. ''"

definition closing_remark :: string where
  "closing_remark = ''Ou'' @ [c_cedilla] @ ''a atentamente e observe os detalhes para aprender a tocar esta m''
                    @ [u_acute] @ ''sica.''"

text \<open>
  The three \<open>try\<close> blocks of \<open>generate_narration_text\<close>, each with its \<open>except Exception\<close>
  handler. A block takes the narration built so far and either extends it or raises; the
  handler extends the narration as it was when the block was entered.
\<close>

definition key_block :: "score \<Rightarrow> string \<Rightarrow> exn + string" where
  "key_block sc narration =
     (case analyze_key sc of
        Inl e \<Rightarrow> Inl e
      | Inr (tonic_name, mode) \<Rightarrow>
          Inr (narration @ ''Esta pe'' @ [c_cedilla] @ ''a est'' @ [a_acute]
               @ '' na tonalidade de '' @ tonic_name @ '' '' @ mode @ ''. ''))"

definition time_signature_block :: "score \<Rightarrow> string \<Rightarrow> exn + string" where
  "time_signature_block sc narration =
     (case time_signatures sc of
        Inl e \<Rightarrow> Inl e
      | Inr ts \<Rightarrow>
          (if ts \<noteq> [] then Inr (narration @ ''O compasso '' @ [e_acute] @ '' '' @ hd ts @ ''. '')
           else Inr (narration @ time_signature_fallback)))"

definition tempo_block :: "score \<Rightarrow> string \<Rightarrow> exn + string" where
  "tempo_block sc narration =
     (case metronome_marks sc of
        Inl e \<Rightarrow> Inl e
      | Inr marks \<Rightarrow>
          (let tempo = (case marks of [] \<Rightarrow> None | mm # _ \<Rightarrow> mm)
           in if truthy tempo
              then Inr (narration @ ''O andamento '' @ [e_acute] @ '' de '' @ format_number tempo
                        @ '' batidas por minuto. '')
              else Inr (narration @ tempo_fallback)))"

definition try_except :: "(string \<Rightarrow> exn + string) \<Rightarrow> string \<Rightarrow> string \<Rightarrow> string" where
  "try_except block fallback narration =
     (case block narration of Inr narration' \<Rightarrow> narration' | Inl e \<Rightarrow> narration @ fallback)"

definition generate_narration_text :: "score \<Rightarrow> string \<Rightarrow> string" where
  "generate_narration_text sc title =
     (let narration = ''A seguir, voc'' @ [e_circ] @ '' ouvir'' @ [a_acute] @ '' a pe'' @ [c_cedilla]
                      @ ''a '' @ title @ ''. '';
          narration = try_except (key_block sc) key_fallback narration;
          narration = try_except (time_signature_block sc) time_signature_fallback narration;
          narration = try_except (tempo_block sc) tempo_fallback narration
      in narration @ closing_remark)"

text \<open>Lines 165-168 of \<open>process_pdf\<close>: the title of the page.\<close>

definition placeholder_title :: "string \<Rightarrow> nat \<Rightarrow> string" where
  "placeholder_title token i = ''Partitura_'' @ token @ ''_'' @ str_nat i"

definition resolve_title :: "score \<Rightarrow> string \<Rightarrow> nat \<Rightarrow> string" where
  "resolve_title sc token i =
     (case metadata sc of
        None \<Rightarrow> placeholder_title token i
      | Some None \<Rightarrow> placeholder_title token i
      | Some (Some t) \<Rightarrow>
          (if t \<noteq> [] then replace_space (strip t) else placeholder_title token i))"

section \<open>The page pipeline\<close>

definition find_musicxml_file :: "path \<Rightarrow> world \<Rightarrow> path option" where
  "find_musicxml_file base_path w =
     (let possible_xml = base_path @ ''.xml'';
          possible_mxl = base_path @ ''.mxl''
      in if os_path_exists possible_xml w then Some possible_xml
         else if os_path_exists possible_mxl w then Some possible_mxl
         else None)"

text \<open>
  A page of the document, together with what the outside world does while it is
  processed. Each field is what one call of the source observes:
  \<^item> \<open>temp_id\<close>: \<open>uuid.uuid4().hex\<close>;
  \<^item> \<open>sheet_music\<close>: the value of \<open>is_sheet_music(img)\<close> on the page's raster;
  \<^item> \<open>audiveris_returncode\<close>, \<open>audiveris_xml\<close>, \<open>audiveris_mxl\<close>: the exit status of the
    OMR tool and what it leaves at the page's base name with each extension;
  \<^item> \<open>converter_parse\<close>: \<open>converter.parse\<close>, which raises or gives the score of the file read;
  \<^item> \<open>midi\<close>: whether \<open>music21ObjectToMidiFile\<close> raises (before the file is opened),
    \<open>mf.write()\<close> raises (the file exists), or the MIDI file is written;
  \<^item> \<open>fluidsynth_returncode\<close>, \<open>fluidsynth_wav\<close>: the exit status of the synthesis engine
    and what it leaves at the \<open>-F\<close> path;
  \<^item> \<open>tts_raises\<close>, \<open>tts_wav\<close>: whether the pyttsx3 calls raise, and what \<open>save_to_file\<close>
    leaves at the narration path;
  \<^item> \<open>export_raises\<close>: whether \<open>final_audio.export\<close> raises.
  A tool writes nothing but its own output files, and removes none. \<open>page.save\<close>,
  \<open>cv2.imread\<close> and \<open>is_sheet_music\<close> are taken to return; the \<open>print\<close> calls are left out.
\<close>

datatype midi_run = Midi_translate_raises exn | Midi_write_raises exn | Midi_ok

record page =
  temp_id :: string
  sheet_music :: bool
  audiveris_returncode :: int
  audiveris_xml :: "content option"
  audiveris_mxl :: "content option"
  converter_parse :: "path \<Rightarrow> exn + score"
  midi :: midi_run
  fluidsynth_returncode :: int
  fluidsynth_wav :: "content option"
  tts_raises :: "exn option"
  tts_wav :: "content option"
  export_raises :: "exn option"

record env =
  SOUNDFONT_PATH :: path
  convert_from_path :: "path \<Rightarrow> exn + page list"

type_synonym index = "(string \<times> string) list"

text \<open>\<open>narrated_scores[title] = final_audio_filename\<close> on a Python \<open>dict\<close>, which keeps
  insertion order: an existing key keeps its place and gets the new value.\<close>

definition dict_set :: "string \<Rightarrow> string \<Rightarrow> index \<Rightarrow> index" where
  "dict_set k v d = AList.update k v d"

definition temp_page :: "string \<Rightarrow> nat \<Rightarrow> string" where
  "temp_page token i = ''temp_page_'' @ token @ ''_'' @ str_nat i"

definition temp_piece :: "string \<Rightarrow> nat \<Rightarrow> path" where
  "temp_piece token i = ''temp_piece_'' @ token @ ''_'' @ str_nat i @ ''.wav''"

definition temp_narration :: "string \<Rightarrow> nat \<Rightarrow> path" where
  "temp_narration token i = ''temp_narration_'' @ token @ ''_'' @ str_nat i @ ''.wav''"

text \<open>Lines 170-174: translate the score and write the MIDI file.\<close>

definition write_midi :: "midi_run \<Rightarrow> path \<Rightarrow> world \<Rightarrow> (exn + unit) \<times> world" where
  "write_midi m midi_file w =
     (case m of
        Midi_translate_raises e \<Rightarrow> (Inl e, w)
      | Midi_write_raises e \<Rightarrow> (Inl e, write_file midi_file Data w)
      | Midi_ok \<Rightarrow> (Inr (), write_file midi_file Data w))"

definition generate_narration_audio ::
  "page \<Rightarrow> string \<Rightarrow> path \<Rightarrow> world \<Rightarrow> (exn + unit) \<times> world" where
  "generate_narration_audio p narration_text narration_file w =
     (let w' = tool_output narration_file (tts_wav p) w
      in case tts_raises p of Some e \<Rightarrow> (Inl e, w') | None \<Rightarrow> (Inr (), w'))"

definition export :: "page \<Rightarrow> AudioSegment \<Rightarrow> path \<Rightarrow> world \<Rightarrow> (exn + unit) \<times> world" where
  "export p audio f w =
     (case export_raises p of
        Some e \<Rightarrow> (Inl e, w)
      | None \<Rightarrow> (Inr (), write_file f (Wav audio) w))"

text \<open>
  The body of the \<open>try\<close> of lines 162-200. It ends in one of three ways: an exception
  (\<open>Inl\<close>, for the \<open>except Exception\<close> of line 201), the \<open>continue\<close> of line 184, or
  by reaching its last statement with the index updated.
\<close>

datatype signal = Continue | Completed

definition page_try ::
  "env \<Rightarrow> path \<Rightarrow> nat \<Rightarrow> page \<Rightarrow> path \<Rightarrow> path \<Rightarrow> index \<Rightarrow> world
   \<Rightarrow> (exn + signal \<times> index) \<times> world" where
  "page_try env output_dir i p image_filename musicxml_file narrated_scores w =
     (case converter_parse p musicxml_file of
        Inl e \<Rightarrow> (Inl e, w)
      | Inr sc \<Rightarrow>
         (let title = resolve_title sc (temp_id p) i;
              midi_file = temp_page (temp_id p) i @ ''.mid''
          in case write_midi (midi p) midi_file w of
               (Inl e, w1) \<Rightarrow> (Inl e, w1)
             | (Inr _, w1) \<Rightarrow>
                (let piece_audio_file = temp_piece (temp_id p) i;
                     cmd_audio = ''fluidsynth -ni '' @ SOUNDFONT_PATH env @ '' '' @ midi_file
                                 @ '' -F '' @ piece_audio_file @ '' -r 44100''
                 in case subprocess_run cmd_audio (fluidsynth_returncode p)
                           (tool_output piece_audio_file (fluidsynth_wav p) w1) of
                      (Inl err, w2) \<Rightarrow>
                        (case os_remove image_filename w2 of
                           Inl e \<Rightarrow> (Inl e, w2)
                         | Inr w3 \<Rightarrow> (Inr (Continue, narrated_scores), w3))
                    | (Inr _, w2) \<Rightarrow>
                       (let narration_text = generate_narration_text sc title;
                            narration_temp_file = temp_narration (temp_id p) i
                        in case generate_narration_audio p narration_text narration_temp_file w2 of
                             (Inl e, w3) \<Rightarrow> (Inl e, w3)
                           | (Inr _, w3) \<Rightarrow>
                              (case from_wav narration_temp_file w3 of
                                 Inl e \<Rightarrow> (Inl e, w3)
                               | Inr narration_audio \<Rightarrow>
                                  (case from_wav piece_audio_file w3 of
                                     Inl e \<Rightarrow> (Inl e, w3)
                                   | Inr piece_audio \<Rightarrow>
                                      (let pause = silent 1000;
                                           final_audio = narration_audio @ pause @ piece_audio;
                                           final_audio_filename = title @ ''_narrado.wav'';
                                           final_audio_file = os_path_join output_dir final_audio_filename
                                       in case export p final_audio final_audio_file w3 of
                                            (Inl e, w4) \<Rightarrow> (Inl e, w4)
                                          | (Inr _, w4) \<Rightarrow>
                                              (Inr (Completed,
                                                    dict_set title final_audio_filename narrated_scores),
                                               w4))))))))"

text \<open>Lines 206-217: the temporary files of the page, removed when they exist.\<close>

definition temp_files :: "string \<Rightarrow> nat \<Rightarrow> path list" where
  "temp_files token i =
     [temp_page token i @ ''.png'',
      temp_page token i @ ''.xml'',
      temp_page token i @ ''.mxl'',
      temp_page token i @ ''.mid'',
      temp_piece token i,
      temp_narration token i]"

fun remove_temp_files :: "path list \<Rightarrow> world \<Rightarrow> exn + world" where
  "remove_temp_files [] w = Inr w"
| "remove_temp_files (f # fs) w =
     (if os_path_exists f w
      then (case os_remove f w of Inl e \<Rightarrow> Inl e | Inr w' \<Rightarrow> remove_temp_files fs w')
      else remove_temp_files fs w)"

text \<open>
  One iteration of the loop of lines 138-217. The result is \<open>Inl\<close> when an exception
  leaves the loop (and so \<open>process_pdf\<close>), and otherwise the index after the page.
  A \<open>continue\<close> (lines 154, 160, 184) ends the iteration without reaching lines 206-217;
  after the \<open>except Exception\<close> handler of lines 201-202, as after a \<open>try\<close> body that
  completes and after the \<open>else\<close> of line 203, the iteration goes on to them.
\<close>

definition process_page ::
  "env \<Rightarrow> path \<Rightarrow> nat \<Rightarrow> page \<Rightarrow> index \<Rightarrow> world \<Rightarrow> (exn + index) \<times> world" where
  "process_page env output_dir i p narrated_scores w =
     (let image_filename = temp_page (temp_id p) i @ ''.png'';
          w0 = write_file image_filename Data w
      in case
           (if sheet_music p then
              (let base_name = fst (os_path_splitext image_filename);
                   cmd = ''audiveris -batch -export -output . '' @ image_filename
               in case subprocess_run cmd (audiveris_returncode p)
                         (tool_output (base_name @ ''.mxl'') (audiveris_mxl p)
                           (tool_output (base_name @ ''.xml'') (audiveris_xml p) w0)) of
                    (Inl err, w1) \<Rightarrow>
                      (case os_remove image_filename w1 of
                         Inl e \<Rightarrow> (Inl e, w1)
                       | Inr w2 \<Rightarrow> (Inr (Continue, narrated_scores), w2))
                  | (Inr _, w1) \<Rightarrow>
                      (case find_musicxml_file base_name w1 of
                         None \<Rightarrow>
                           (case os_remove image_filename w1 of
                              Inl e \<Rightarrow> (Inl e, w1)
                            | Inr w2 \<Rightarrow> (Inr (Continue, narrated_scores), w2))
                       | Some musicxml_file \<Rightarrow>
                           (case page_try env output_dir i p image_filename musicxml_file
                                   narrated_scores w1 of
                              (Inl e, w2) \<Rightarrow> (Inr (Completed, narrated_scores), w2)
                            | (Inr r, w2) \<Rightarrow> (Inr r, w2))))
            else (Inr (Completed, narrated_scores), w0)) of
           (Inl e, w') \<Rightarrow> (Inl e, w')
         | (Inr (Continue, narrated_scores'), w') \<Rightarrow> (Inr narrated_scores', w')
         | (Inr (Completed, narrated_scores'), w') \<Rightarrow>
             (case remove_temp_files (temp_files (temp_id p) i) w' of
                Inl e \<Rightarrow> (Inl e, w')
              | Inr w'' \<Rightarrow> (Inr narrated_scores', w'')))"

fun process_pages ::
  "env \<Rightarrow> path \<Rightarrow> nat \<Rightarrow> page list \<Rightarrow> index \<Rightarrow> world \<Rightarrow> (exn + index) \<times> world" where
  "process_pages env output_dir i [] narrated_scores w = (Inr narrated_scores, w)"
| "process_pages env output_dir i (p # ps) narrated_scores w =
     (case process_page env output_dir i p narrated_scores w of
        (Inl e, w') \<Rightarrow> (Inl e, w')
      | (Inr narrated_scores', w') \<Rightarrow> process_pages env output_dir (Suc i) ps narrated_scores' w')"

definition process_pdf :: "env \<Rightarrow> path \<Rightarrow> path \<Rightarrow> world \<Rightarrow> (exn + index) \<times> world" where
  "process_pdf env pdf_path output_dir w =
     (if \<not> os_path_exists (SOUNDFONT_PATH env) w
      then (Inl (Exception (''SoundFont n'' @ [a_tilde] @ ''o encontrado em '' @ SOUNDFONT_PATH env
                            @ ''.'')), w)
      else (let w0 = w\<lparr>calls := calls w @ [Convert_from_path pdf_path]\<rparr>
            in case convert_from_path env pdf_path of
                 Inl e \<Rightarrow> (Inl e, w0)
               | Inr pages \<Rightarrow> process_pages env output_dir 0 pages [] w0))"

section \<open>Example inputs\<close>

text \<open>
  Scores, pages and worlds on which the theorems below are instantiated: a score with
  full metadata, one with none, one whose title is a single space; a page on which every
  stage succeeds, and variants of it on which one stage fails; a document that rasterizes
  to given pages; a world where the sound font exists, and one where it does not.
\<close>

definition score_full :: score where
  "score_full = \<lparr>metadata = Some (Some ''Ode''), analyze_key = Inr (''C'', ''major''),
                 time_signatures = Inr [''4/4''], metronome_marks = Inr [Some (PyInt 120)]\<rparr>"

definition score_bare :: score where
  "score_bare = \<lparr>metadata = None, analyze_key = Inl (LibraryError ''AnalysisException''),
                 time_signatures = Inr [], metronome_marks = Inr []\<rparr>"


definition page_ok :: page where
  "page_ok = \<lparr>temp_id = ''ab12'', sheet_music = True,
     audiveris_returncode = 0, audiveris_xml = Some Data, audiveris_mxl = None,
     converter_parse = (\<lambda>_. Inr score_full), midi = Midi_ok,
     fluidsynth_returncode = 0, fluidsynth_wav = Some (Wav [5, 6, 7]),
     tts_raises = None, tts_wav = Some (Wav [1, 2]), export_raises = None\<rparr>"

definition page_synthesis_fails :: page where
  "page_synthesis_fails = page_ok\<lparr>fluidsynth_returncode := 1, fluidsynth_wav := None\<rparr>"

definition page_omr_fails :: page where
  "page_omr_fails = page_ok\<lparr>audiveris_returncode := 1, audiveris_xml := None\<rparr>"

definition page_omr_silent :: page where
  "page_omr_silent = page_ok\<lparr>audiveris_xml := None\<rparr>"

definition page_not_music :: page where
  "page_not_music = page_ok\<lparr>sheet_music := False\<rparr>"


definition page_later :: page where
  "page_later = page_ok\<lparr>temp_id := ''cd34'', fluidsynth_wav := Some (Wav [8, 9])\<rparr>"

definition env_of :: "page list \<Rightarrow> env" where
  "env_of pages = \<lparr>SOUNDFONT_PATH = ''soundfont.sf2'', convert_from_path = (\<lambda>_. Inr pages)\<rparr>"

definition world_start :: world where
  "world_start = \<lparr>files = [''soundfont.sf2'' \<mapsto> Data], calls = []\<rparr>"

definition world_no_soundfont :: world where
  "world_no_soundfont = \<lparr>files = Map.empty, calls = []\<rparr>"

text \<open>An OpenCV stand-in on which the opening leaves a given number of the pixels of a
  page of given shape, whatever the page.\<close>

definition cv2_leaving :: "nat \<Rightarrow> nat \<times> nat \<Rightarrow> (unit, unit, unit) cv2" where
  "cv2_leaving n rows_cols =
     \<lparr>cvtColor_BGR2GRAY = (\<lambda>_. ()), threshold_BINARY_INV = (\<lambda>_ _ _. ()),
      getStructuringElement_RECT = (\<lambda>_. ()), morphologyEx_OPEN = (\<lambda>_ _ _. ()),
      countNonZero = (\<lambda>_. n), shape = (\<lambda>_. rows_cols)\<rparr>"

section \<open>Auxiliary facts\<close>

subsection \<open>File names\<close>

lemma str_nat_ne: "str_nat n \<noteq> []"
  by (subst str_nat.simps) simp

lemma digit_char_cases: "d < 10 \<Longrightarrow> digit_char d \<in> set ''0123456789''"
  unfolding digit_char_def by (rule nth_mem) simp

lemma last_str_nat: "last (str_nat n) \<in> set ''0123456789''"
proof -
  have "n mod 10 < 10" by simp
  then show ?thesis
    using digit_char_cases [of n] digit_char_cases [of "n mod 10"]
    by (subst str_nat.simps) (simp del: set_simps)
qed

lemma takeWhile_neq_append:
  "c \<notin> set ys \<Longrightarrow> takeWhile (\<lambda>x. x \<noteq> c) (ys @ zs) = ys @ takeWhile (\<lambda>x. x \<noteq> c) zs"
  by (induction ys) auto

lemma length_takeWhile_neq:
  "c \<in> set s \<Longrightarrow> length (takeWhile (\<lambda>x. x \<noteq> c) s) < length s"
  by (induction s) auto

lemma rfind_append_last:
  "c \<notin> set ys \<Longrightarrow> rfind (xs @ c # ys) c = int (length xs)"
proof -
  assume "c \<notin> set ys"
  then have "takeWhile (\<lambda>x. x \<noteq> c) (rev ys @ c # rev xs) = rev ys"
    using takeWhile_neq_append [of c "rev ys" "c # rev xs"] by simp
  then show ?thesis by (simp add: rfind_def)
qed

lemma rfind_less:
  assumes "xs \<noteq> []" "last xs \<noteq> c"
  shows "rfind xs c + 1 < int (length xs)"
proof (cases "c \<in> set xs")
  case False
  with assms show ?thesis by (cases xs) (simp_all add: rfind_def)
next
  case True
  from assms obtain ys y where xs: "xs = ys @ [y]" and "y \<noteq> c"
    by (metis append_butlast_last_id)
  then have "takeWhile (\<lambda>x. x \<noteq> c) (rev xs) = y # takeWhile (\<lambda>x. x \<noteq> c) (rev ys)"
    by simp
  with True show ?thesis by (simp add: rfind_def)
qed

lemma rfind_append_other:
  assumes "c \<notin> set ys"
  shows "rfind (xs @ ys) c = rfind xs c"
proof (cases "c \<in> set xs")
  case False
  with assms show ?thesis by (simp add: rfind_def)
next
  case True
  from assms have "takeWhile (\<lambda>x. x \<noteq> c) (rev ys @ rev xs) = rev ys @ takeWhile (\<lambda>x. x \<noteq> c) (rev xs)"
    using takeWhile_neq_append [of c "rev ys" "rev xs"] by simp
  with True show ?thesis by (simp add: rfind_def)
qed

lemma rfind_ge: "- 1 \<le> rfind s c"
proof (cases "c \<in> set s")
  case True
  then have "length (takeWhile (\<lambda>x. x \<noteq> c) (rev s)) < length (rev s)"
    using length_takeWhile_neq [of c "rev s"] by simp
  with True show ?thesis by (simp add: rfind_def)
qed (simp add: rfind_def)

text \<open>A name that ends in neither a separator nor a dot is split from its extension.\<close>

lemma splitext_ext:
  assumes "xs \<noteq> []" "last xs \<noteq> CHR ''/''" "last xs \<noteq> CHR ''.''"
    and "CHR ''.'' \<notin> set ext" "CHR ''/'' \<notin> set ext"
  shows "os_path_splitext (xs @ CHR ''.'' # ext) = (xs, CHR ''.'' # ext)"
proof -
  let ?p = "xs @ CHR ''.'' # ext"
  have dot: "rfind ?p CHR ''.'' = int (length xs)"
    using assms(4) by (rule rfind_append_last)
  have sep: "rfind ?p CHR ''/'' = rfind xs CHR ''/''"
    using assms(5) by (simp add: rfind_append_other)
  have lt: "rfind xs CHR ''/'' + 1 < int (length xs)"
    using assms(1,2) by (rule rfind_less)
  have ge: "- 1 \<le> rfind xs CHR ''/''" by (rule rfind_ge)
  let ?k = "length xs - 1"
  have k: "?k \<in> set [nat (rfind xs CHR ''/'' + 1) ..< nat (int (length xs))]"
    using lt ge assms(1) by auto
  have "?p ! ?k = last xs"
    using assms(1) by (simp add: nth_append last_conv_nth)
  with assms(3) have "?p ! ?k \<noteq> CHR ''.''" by simp
  with k have ex: "\<exists>k \<in> set [nat (rfind xs CHR ''/'' + 1) ..< nat (int (length xs))]. ?p ! k \<noteq> CHR ''.''"
    by blast
  show ?thesis
    unfolding os_path_splitext_def Let_def dot sep
    using lt ex by simp
qed

lemma last_temp_page: "last (temp_page t i) = last (str_nat i)"
  by (simp add: temp_page_def str_nat_ne)

text \<open>Line 147: the base name of the page image is its name without \<open>.png\<close>,
  whatever the token and the index.\<close>

lemma base_name: "fst (os_path_splitext (temp_page t i @ ''.png'')) = temp_page t i"
proof -
  have "temp_page t i \<noteq> []" by (simp add: temp_page_def)
  moreover have "last (temp_page t i) \<noteq> CHR ''/''" "last (temp_page t i) \<noteq> CHR ''.''"
    using last_str_nat [of i] by (auto simp: last_temp_page)
  ultimately have "os_path_splitext (temp_page t i @ CHR ''.'' # ''png'') = (temp_page t i, CHR ''.'' # ''png'')"
    by (intro splitext_ext) simp_all
  then show ?thesis by simp
qed

subsection \<open>Removing the temporary files\<close>

lemma remove_temp_files_eq:
  "remove_temp_files fs w = Inr (w\<lparr>files := (\<lambda>f. if f \<in> set fs then None else files w f)\<rparr>)"
proof (induction fs arbitrary: w)
  case Nil
  show ?case by simp
next
  case (Cons f fs)
  show ?case
    by (auto simp: Cons os_remove_def os_path_exists_def fun_eq_iff intro!: world.equality)
qed

subsection \<open>The world\<close>

lemma exists_write_file [simp]:
  "os_path_exists f (write_file g c w) = (f = g \<or> os_path_exists f w)"
  by (simp add: os_path_exists_def write_file_def)

lemma exists_tool_output:
  "os_path_exists f w \<Longrightarrow> os_path_exists f (tool_output g out w)"
  by (cases out) (simp_all add: tool_output_def)

lemma exists_calls [simp]:
  "os_path_exists f (w\<lparr>calls := cs\<rparr>) = os_path_exists f w"
  by (simp add: os_path_exists_def)

lemma calls_write_file [simp]: "calls (write_file f c w) = calls w"
  by (simp add: write_file_def)

lemma calls_tool_output [simp]: "calls (tool_output f out w) = calls w"
  by (cases out) (simp_all add: tool_output_def)

text \<open>The page image written at line 141 is still there after the OMR tool has run.\<close>

lemma image_exists_after_audiveris:
  "os_path_exists img
     (snd (subprocess_run cmd rc (tool_output a x (tool_output b y (write_file img Data w)))))"
  by (simp add: subprocess_run_def Let_def exists_tool_output)

lemma process_page_not_sheet:
  assumes "\<not> sheet_music p"
  shows "process_page env out i p idx w =
           (Inr idx, (write_file (temp_page (temp_id p) i @ ''.png'') Data w)
              \<lparr>files := (\<lambda>f. if f \<in> set (temp_files (temp_id p) i) then None
                             else files (write_file (temp_page (temp_id p) i @ ''.png'') Data w) f)\<rparr>)"
  using assms by (simp add: process_page_def Let_def remove_temp_files_eq)

subsection \<open>One page\<close>

text \<open>How the \<open>try\<close> body can end without an exception: by the \<open>continue\<close> of line 184,
  with the index as it was, or at its last statement, every stage having succeeded.\<close>

lemma page_try_result:
  assumes "page_try env out i p img xml idx w = (Inr (sig, idx'), w')"
  shows "(sig = Continue \<and> idx' = idx \<and> fluidsynth_returncode p \<noteq> 0) \<or>
         (sig = Completed \<and>
          (\<exists>sc. converter_parse p xml = Inr sc \<and>
                idx' = dict_set (resolve_title sc (temp_id p) i)
                         (resolve_title sc (temp_id p) i @ ''_narrado.wav'') idx) \<and>
          midi p = Midi_ok \<and> fluidsynth_returncode p = 0 \<and> tts_raises p = None \<and>
          export_raises p = None)"
  using assms
  unfolding page_try_def write_midi_def subprocess_run_def generate_narration_audio_def export_def
  by (auto simp: Let_def split: sum.splits midi_run.splits if_splits option.splits)

lemma process_page_result:
  "\<exists>idx' w'. process_page env out i p idx w = (Inr idx', w') \<and>
     (idx' = idx \<or>
      (sheet_music p \<and> audiveris_returncode p = 0 \<and>
       (\<exists>xml sc. converter_parse p xml = Inr sc \<and>
                 idx' = dict_set (resolve_title sc (temp_id p) i)
                          (resolve_title sc (temp_id p) i @ ''_narrado.wav'') idx) \<and>
       midi p = Midi_ok \<and> fluidsynth_returncode p = 0 \<and> tts_raises p = None \<and>
       export_raises p = None))"
proof (cases "sheet_music p")
  case False
  then show ?thesis by (simp add: process_page_not_sheet)
next
  case True
  let ?img = "temp_page (temp_id p) i @ ''.png''"
  let ?base = "temp_page (temp_id p) i"
  let ?run = "subprocess_run (''audiveris -batch -export -output . '' @ ?img) (audiveris_returncode p)
                (tool_output (?base @ ''.mxl'') (audiveris_mxl p)
                  (tool_output (?base @ ''.xml'') (audiveris_xml p) (write_file ?img Data w)))"
  obtain r w1 where run: "?run = (r, w1)" by (cases ?run)
  have "os_path_exists ?img (snd ?run)" by (rule image_exists_after_audiveris)
  with run have ex: "os_path_exists ?img w1" by simp
  have rc: "audiveris_returncode p = 0" if "r = Inr u" for u
    using run that by (auto simp: subprocess_run_def Let_def split: if_splits)
  show ?thesis
  proof (cases r)
    case (Inl err)
    with True run ex show ?thesis
      by (simp add: process_page_def Let_def base_name os_remove_def)
  next
    case (Inr u)
    show ?thesis
    proof (cases "find_musicxml_file ?base w1")
      case None
      with True run ex Inr show ?thesis
        by (simp add: process_page_def Let_def base_name os_remove_def)
    next
      case (Some xml)
      obtain r2 w2 where tr: "page_try env out i p ?img xml idx w1 = (r2, w2)"
        by (cases "page_try env out i p ?img xml idx w1")
      show ?thesis
      proof (cases r2)
        case (Inl e)
        with True run Inr Some tr show ?thesis
          by (simp add: process_page_def Let_def base_name remove_temp_files_eq)
      next
        case res: (Inr si)
        obtain sig idx' where si: "si = (sig, idx')" by (cases si)
        from page_try_result [OF tr [unfolded res si]] rc [OF Inr]
        show ?thesis
          using True run Inr Some tr res si
          by (cases sig) (auto simp: process_page_def Let_def base_name remove_temp_files_eq)
      qed
    qed
  qed
qed


subsection \<open>The final file\<close>





lemma page_try_completed:
  assumes "page_try env out i p img xml idx w = (Inr (Completed, idx'), w')"
  shows "\<exists>sc n pc w3.
           converter_parse p xml = Inr sc \<and>
           from_wav (temp_narration (temp_id p) i) w3 = Inr n \<and>
           from_wav (temp_piece (temp_id p) i) w3 = Inr pc \<and>
           w' = write_file (os_path_join out (resolve_title sc (temp_id p) i @ ''_narrado.wav''))
                  (Wav (n @ silent 1000 @ pc)) w3 \<and>
           idx' = dict_set (resolve_title sc (temp_id p) i)
                    (resolve_title sc (temp_id p) i @ ''_narrado.wav'') idx"
  using assms
  unfolding page_try_def write_midi_def subprocess_run_def generate_narration_audio_def export_def
  by (auto simp: Let_def split: sum.splits midi_run.splits if_splits option.splits)



lemma process_page_missing_output:
  assumes "sheet_music p" "audiveris_returncode p = 0"
    and "audiveris_xml p = None" "audiveris_mxl p = None"
    and "\<not> os_path_exists (temp_page (temp_id p) i @ ''.xml'') w"
    and "\<not> os_path_exists (temp_page (temp_id p) i @ ''.mxl'') w"
  shows "\<exists>w'. process_page env out i p idx w = (Inr idx, w')"
  using assms
  by (simp add: process_page_def Let_def base_name subprocess_run_def tool_output_def
      find_musicxml_file_def os_remove_def)

subsection \<open>The index\<close>

lemma dict_set_entries:
  assumes "\<And>t f. (t, f) \<in> set d \<Longrightarrow> f = t @ ''_narrado.wav''"
    and "(t, f) \<in> set (dict_set k (k @ ''_narrado.wav'') d)"
  shows "f = t @ ''_narrado.wav''"
  using assms unfolding dict_set_def
  by (induction d) (auto split: if_splits)

lemma process_page_index_invariant:
  assumes "process_page env out i p idx w = (Inr idx', w')"
    and "distinct (map fst idx)"
    and "\<And>t f. (t, f) \<in> set idx \<Longrightarrow> f = t @ ''_narrado.wav''"
  shows "distinct (map fst idx') \<and> (\<forall>t f. (t, f) \<in> set idx' \<longrightarrow> f = t @ ''_narrado.wav'')"
proof -
  from process_page_result [of env out i p idx w] assms(1)
  consider "idx' = idx"
    | title where "idx' = dict_set title (title @ ''_narrado.wav'') idx"
    by auto
  then show ?thesis
  proof cases
    case 1
    with assms show ?thesis by blast
  next
    case 2
    have "distinct (map fst idx')"
      using assms(2) by (simp add: 2 dict_set_def distinct_update)
    moreover have "\<forall>t f. (t, f) \<in> set idx' \<longrightarrow> f = t @ ''_narrado.wav''"
      using dict_set_entries [OF assms(3)] unfolding 2 by blast
    ultimately show ?thesis by blast
  qed
qed

lemma process_pages_index_invariant:
  assumes "distinct (map fst idx)"
    and "\<forall>t f. (t, f) \<in> set idx \<longrightarrow> f = t @ ''_narrado.wav''"
  shows "\<exists>idx' w'. process_pages env out i ps idx w = (Inr idx', w') \<and> distinct (map fst idx')
           \<and> (\<forall>t f. (t, f) \<in> set idx' \<longrightarrow> f = t @ ''_narrado.wav'')"
  using assms
proof (induction ps arbitrary: i idx w)
  case Nil
  then show ?case by simp
next
  case (Cons p ps)
  obtain idx1 w1 where step: "process_page env out i p idx w = (Inr idx1, w1)"
    using process_page_result [of env out i p idx w] by blast
  from process_page_index_invariant [OF step Cons.prems(1)] Cons.prems(2)
  have "distinct (map fst idx1)" "\<forall>t f. (t, f) \<in> set idx1 \<longrightarrow> f = t @ ''_narrado.wav''"
    by blast+
  from Cons.IH [OF this, of "Suc i" w1] step show ?case by simp
qed

subsection \<open>Cleanup\<close>

text \<open>
  When neither subprocess exits with a non-zero status, so that none of the \<open>continue\<close>
  statements of lines 154 and 184 is executed, a temporary file of the page that exists
  after the iteration existed before it: the page leaves none of its own behind.
\<close>

lemma temp_files_removed_without_continue:
  assumes "audiveris_returncode p = 0" "fluidsynth_returncode p = 0"
    and "process_page env out i p idx w = (r, w')"
    and "f \<in> set (temp_files (temp_id p) i)"
    and "os_path_exists f w'"
  shows "os_path_exists f w"
proof (cases "sheet_music p")
  case False
  with assms(3,4,5) show ?thesis
    by (auto simp: process_page_not_sheet os_path_exists_def)
next
  case True
  let ?img = "temp_page (temp_id p) i @ ''.png''"
  let ?base = "temp_page (temp_id p) i"
  let ?w1 = "(tool_output (?base @ ''.mxl'') (audiveris_mxl p)
               (tool_output (?base @ ''.xml'') (audiveris_xml p) (write_file ?img Data w)))
             \<lparr>calls := calls w @ [Subprocess_run (''audiveris -batch -export -output . '' @ ?img)]\<rparr>"
  have run: "subprocess_run (''audiveris -batch -export -output . '' @ ?img) (audiveris_returncode p)
                (tool_output (?base @ ''.mxl'') (audiveris_mxl p)
                  (tool_output (?base @ ''.xml'') (audiveris_xml p) (write_file ?img Data w)))
             = (Inr (), ?w1)"
    using assms(1) by (simp add: subprocess_run_def Let_def)
  show ?thesis
  proof (cases "find_musicxml_file ?base ?w1")
    case None
    then have no: "\<not> os_path_exists (?base @ ''.xml'') ?w1" "\<not> os_path_exists (?base @ ''.mxl'') ?w1"
      by (auto simp: find_musicxml_file_def Let_def split: if_splits)
    have ex: "os_path_exists ?img ?w1" by (simp add: exists_tool_output)
    from True run None ex assms(3) have w': "w' = ?w1\<lparr>files := (files ?w1)(?img := None)\<rparr>"
      by (simp add: process_page_def Let_def base_name os_remove_def)
    have other: "files ?w1 g = files w g"
      if "g \<noteq> ?img" "g \<noteq> ?base @ ''.xml''" "g \<noteq> ?base @ ''.mxl''" for g
      using that by (simp add: tool_output_def write_file_def split: option.splits)
    from assms(4) consider "f = ?img" | "f = ?base @ ''.xml''" | "f = ?base @ ''.mxl''"
      | "f = ?base @ ''.mid''" | "f = temp_piece (temp_id p) i" | "f = temp_narration (temp_id p) i"
      by (auto simp: temp_files_def)
    then show ?thesis
    proof cases
      case 1
      with assms(5) show ?thesis by (simp add: w' os_path_exists_def)
    next
      case 2
      with assms(5) no show ?thesis by (simp add: w' os_path_exists_def)
    next
      case 3
      with assms(5) no show ?thesis by (simp add: w' os_path_exists_def)
    next
      case 4
      then have "files ?w1 f = files w f" by (intro other) simp_all
      with assms(5) 4 show ?thesis by (simp add: w' os_path_exists_def)
    next
      case 5
      then have "files ?w1 f = files w f"
        by (intro other) (simp_all add: temp_piece_def temp_page_def)
      with assms(5) 5 show ?thesis
        by (simp add: w' os_path_exists_def temp_piece_def temp_page_def)
    next
      case 6
      then have "files ?w1 f = files w f"
        by (intro other) (simp_all add: temp_narration_def temp_page_def)
      with assms(5) 6 show ?thesis
        by (simp add: w' os_path_exists_def temp_narration_def temp_page_def)
    qed
  next
    case (Some xml)
    obtain r2 w2 where tr: "page_try env out i p ?img xml idx ?w1 = (r2, w2)"
      by (cases "page_try env out i p ?img xml idx ?w1")
    have "files w' f = None"
    proof (cases r2)
      case (Inl e)
      with True run Some tr assms(3,4) show ?thesis
        by (auto simp: process_page_def Let_def base_name remove_temp_files_eq)
    next
      case res: (Inr si)
      obtain sig idx' where si: "si = (sig, idx')" by (cases si)
      from page_try_result [OF tr [unfolded res si]] assms(2) have "sig = Completed" by auto
      with True run Some tr res si assms(3,4) show ?thesis
        by (auto simp: process_page_def Let_def base_name remove_temp_files_eq)
    qed
    with assms(5) show ?thesis by (simp add: os_path_exists_def)
  qed
qed

subsection \<open>Rounding to binary64\<close>

lemma nearest_binary64_0_01: "nearest_binary64 1 100 = Some (5764607523034235 / 2 ^ 59)"
  by code_simp

lemma floor_log2_bounds: "0 < n \<Longrightarrow> 2 ^ floor_log2 n \<le> n \<and> n < 2 ^ Suc (floor_log2 n)"
proof (induction n rule: floor_log2.induct)
  case (1 n)
  show ?case
  proof (cases "n < 2")
    case True
    with 1(2) show ?thesis by (subst floor_log2.simps, subst (2) floor_log2.simps) simp
  next
    case False
    then have "0 < n div 2" by simp
    with 1(1) False have IH: "2 ^ floor_log2 (n div 2) \<le> n div 2" "n div 2 < 2 ^ Suc (floor_log2 (n div 2))"
      by simp_all
    have fl: "floor_log2 n = Suc (floor_log2 (n div 2))"
      using False by (subst floor_log2.simps) simp
    from IH show ?thesis unfolding fl by (simp, linarith)
  qed
qed

lemma powi_diff_nat: "(2::rat) powi (int m - int n) = 2 ^ m / 2 ^ n"
  by (simp add: power_int_diff)

lemma exponent_bounds:
  assumes "0 < a" "0 < b"
  shows "2 powi exponent a b \<le> (of_nat a / of_nat b :: rat)"
    and "(of_nat a / of_nat b :: rat) < 2 powi (exponent a b + 1)"
proof -
  let ?la = "floor_log2 a" and ?lb = "floor_log2 b"
  let ?e = "int ?la - int ?lb"
  let ?q = "of_nat a / of_nat b :: rat"
  have b0: "(0::rat) < of_nat b" using assms by simp
  from floor_log2_bounds [OF assms(1)] have a1: "(2::rat) ^ ?la \<le> of_nat a" and a2: "(of_nat a :: rat) < 2 ^ Suc ?la"
    by (metis of_nat_le_iff of_nat_numeral of_nat_power, metis of_nat_less_iff of_nat_numeral of_nat_power)
  from floor_log2_bounds [OF assms(2)] have b1: "(2::rat) ^ ?lb \<le> of_nat b" and b2: "(of_nat b :: rat) < 2 ^ Suc ?lb"
    by (metis of_nat_le_iff of_nat_numeral of_nat_power, metis of_nat_less_iff of_nat_numeral of_nat_power)
  have up: "?q < 2 powi (?e + 1)"
  proof -
    have "?q < 2 ^ Suc ?la / of_nat b" using a2 b0 by (simp add: divide_strict_right_mono)
    also have "\<dots> \<le> 2 ^ Suc ?la / 2 ^ ?lb" using b1 by (simp add: frac_le)
    also have "\<dots> = 2 powi (?e + 1)"
      using powi_diff_nat [of "Suc ?la" ?lb] by (simp add: algebra_simps)
    finally show ?thesis .
  qed
  have low: "2 powi (?e - 1) \<le> ?q"
  proof -
    have "(2::rat) powi (?e - 1) = 2 ^ ?la / 2 ^ Suc ?lb"
      using powi_diff_nat [of ?la "Suc ?lb"] by (simp add: algebra_simps)
    also have "\<dots> \<le> of_nat a / 2 ^ Suc ?lb" using a1 by (simp add: divide_right_mono)
    also have "\<dots> \<le> ?q" using b2 b0 by (intro divide_left_mono) (simp_all add: less_imp_le)
    finally show ?thesis .
  qed
  have iff: "2 powi ?e * of_nat b \<le> (of_nat a :: rat) \<longleftrightarrow> 2 powi ?e \<le> ?q"
    using b0 by (simp add: pos_le_divide_eq)
  show "2 powi exponent a b \<le> ?q"
    using low iff by (auto simp: exponent_def Let_def)
  show "?q < 2 powi (exponent a b + 1)"
    using up iff by (auto simp: exponent_def Let_def not_le)
qed

lemma round_half_even_close:
  "of_int (round_half_even x) - 1 / 2 \<le> x \<and> x \<le> of_int (round_half_even x) + 1 / 2"
proof -
  have "of_int \<lfloor>x\<rfloor> \<le> x" "x < of_int \<lfloor>x\<rfloor> + 1" by linarith+
  then show ?thesis
    unfolding round_half_even_def Let_def by (simp split: if_splits) linarith
qed

lemma round_half_even_ge: "of_int n \<le> x \<Longrightarrow> n \<le> round_half_even x"
proof (rule ccontr)
  assume "of_int n \<le> x" "\<not> n \<le> round_half_even x"
  then have "(of_int (round_half_even x) :: rat) \<le> of_int n - 1"
    by (metis not_le of_int_1 of_int_diff of_int_le_iff zle_diff1_eq)
  with round_half_even_close [of x] \<open>of_int n \<le> x\<close> show False by linarith
qed

lemma round_half_even_le: "x \<le> of_int n \<Longrightarrow> round_half_even x \<le> n"
proof (rule ccontr)
  assume "x \<le> of_int n" "\<not> round_half_even x \<le> n"
  then have "(of_int n :: rat) + 1 \<le> of_int (round_half_even x)"
    by (metis not_le of_int_1 of_int_add of_int_le_iff zless_imp_add1_zle)
  with round_half_even_close [of x] \<open>x \<le> of_int n\<close> show False by linarith
qed

lemma round_half_even_above: "of_int n + 1 / 2 < x \<Longrightarrow> n + 1 \<le> round_half_even x"
proof -
  assume "of_int n + 1 / 2 < x"
  with round_half_even_close [of x] have "(of_int n :: rat) < of_int (round_half_even x)"
    by linarith
  then show ?thesis by simp
qed

lemma round_half_even_below: "x < of_int n + 1 / 2 \<Longrightarrow> round_half_even x \<le> n"
proof -
  assume "x < of_int n + 1 / 2"
  with round_half_even_close [of x] have "(of_int (round_half_even x) :: rat) < of_int n + 1"
    by linarith
  then have "(of_int (round_half_even x) :: rat) < of_int (n + 1)" by simp
  then show ?thesis by (simp only: of_int_less_iff)
qed

lemma powi2_le_iff: "(2::rat) powi m \<le> 2 powi n \<longleftrightarrow> m \<le> n"
  using power_int_strict_increasing [of n m "2::rat"] power_int_increasing [of m n "2::rat"]
  by (auto simp: not_le [symmetric])

lemma powi2_less_iff: "(2::rat) powi m < 2 powi n \<longleftrightarrow> m < n"
  using powi2_le_iff [of n m] by (auto simp: not_le [symmetric])

lemma ratio_gt:
  assumes "0 < b" "b < 100 * a"
  shows "(1::rat) / 100 < of_nat a / of_nat b"
proof -
  have "(of_nat b :: rat) < of_nat (100 * a)" using assms(2) by (simp only: of_nat_less_iff)
  then have "(of_nat b :: rat) < 100 * of_nat a" by simp
  moreover have "(0::rat) < of_nat b" using assms(1) by simp
  ultimately show ?thesis by (simp add: pos_less_divide_eq)
qed

lemma ratio_le:
  assumes "0 < b" "100 * a \<le> b"
  shows "(of_nat a / of_nat b :: rat) \<le> 1 / 100"
proof -
  have "(of_nat (100 * a) :: rat) \<le> of_nat b" using assms(2) by (simp only: of_nat_le_iff)
  then have "(100 * of_nat a :: rat) \<le> of_nat b" by simp
  moreover have "(0::rat) < of_nat b" using assms(1) by simp
  ultimately show ?thesis by (simp add: pos_divide_le_eq)
qed

lemma scaled_above:
  assumes "0 < b" "b < 2 ^ 53" "b < 100 * a"
  shows "of_int 5764607523034235 + 1 / 2 < (of_nat a / of_nat b :: rat) / 2 powi (- 59)"
proof -
  have n: "11529215046068471 * b < 1152921504606846976 * a"
    using assms(2,3) by simp
  have "(of_nat (11529215046068471 * b) :: rat) < of_nat (1152921504606846976 * a)"
    using n by (simp only: of_nat_less_iff)
  then have "(11529215046068471 * of_nat b :: rat) < 1152921504606846976 * of_nat a"
    by simp
  moreover have "(0::rat) < of_nat b" using assms(1) by simp
  ultimately show ?thesis
    by (simp add: power_int_minus_divide pos_less_divide_eq)
qed

lemma scaled_below:
  assumes "0 < b" "100 * a \<le> b"
  shows "(of_nat a / of_nat b :: rat) / 2 powi (- 59) < of_int 5764607523034235 + 1 / 2"
proof -
  have n: "1152921504606846976 * a < 11529215046068471 * b"
    using assms by simp
  have "(of_nat (1152921504606846976 * a) :: rat) < of_nat (11529215046068471 * b)"
    using n by (simp only: of_nat_less_iff)
  then have "(1152921504606846976 * of_nat a :: rat) < 11529215046068471 * of_nat b"
    by simp
  moreover have "(0::rat) < of_nat b" using assms(1) by simp
  ultimately show ?thesis
    by (simp add: power_int_minus_divide pos_divide_less_eq)
qed

text \<open>
  For a quotient that is at most 1 and whose divisor is below \<open>2\<^sup>5\<^sup>3\<close>, the division
  returns a double, and that double is above the double of \<open>0.01\<close> exactly when the exact
  quotient is above 1/100.
\<close>

lemma nearest_binary64_threshold:
  assumes "0 < b" "b < 2 ^ 53" "a \<le> b"
  shows "\<exists>r. nearest_binary64 a b = Some r \<and> (5764607523034235 / 2 ^ 59 < r \<longleftrightarrow> b < 100 * a)"
proof (cases "a = 0")
  case True
  with assms show ?thesis by (simp add: nearest_binary64_def)
next
  case False
  then have a: "0 < a" by simp
  let ?q = "of_nat a / of_nat b :: rat"
  let ?e = "exponent a b"
  let ?ulp = "(2::rat) powi (?e - 52)"
  let ?x = "?q / ?ulp"
  let ?m = "round_half_even ?x"
  let ?r = "of_int ?m * ?ulp"
  have b0: "(0::rat) < of_nat b" using assms by simp
  have lo: "2 powi ?e \<le> ?q" and hi: "?q < 2 powi (?e + 1)"
    using exponent_bounds [OF a assms(1)] by simp_all
  have q1: "?q \<le> 1" using assms(3) b0 by (simp add: pos_divide_le_eq)
  have "(of_nat b :: rat) < of_nat (2 ^ 53)" using assms(2) by (simp only: of_nat_less_iff)
  then have b53: "(of_nat b :: rat) < 2 ^ 53" by simp
  have a1: "(1::rat) \<le> of_nat a" using a by simp
  have "(1::rat) / 2 ^ 53 < 1 / of_nat b"
    using b53 b0 by (intro divide_strict_left_mono) simp_all
  also have "\<dots> \<le> ?q" using a1 b0 by (intro divide_right_mono) simp_all
  finally have qlow: "2 powi (- 53) < ?q" by (simp add: power_int_minus_divide)
  have e_le: "?e \<le> 0"
  proof -
    have "2 powi ?e \<le> (2::rat) powi 0" using lo q1 by simp
    then show ?thesis by (simp only: powi2_le_iff)
  qed
  have e_ge: "- 53 \<le> ?e"
  proof -
    have "(2::rat) powi (- 53) < 2 powi (?e + 1)" using qlow hi by (rule less_trans)
    then have "- 53 < ?e + 1" by (simp only: powi2_less_iff)
    then show ?thesis by simp
  qed
  have emax: "max ?e (- 1022) = ?e" using e_ge by simp
  have ulp0: "0 < ?ulp" by simp
  have ulp_e: "2 ^ 52 * ?ulp = 2 powi ?e"
    using power_int_add [of "2::rat" 52 "?e - 52"] by simp
  have ulp_e1: "2 ^ 53 * ?ulp = 2 powi (?e + 1)"
    using power_int_add [of "2::rat" 53 "?e - 52"] by (simp add: algebra_simps)
  have x_lo: "2 ^ 52 \<le> ?x"
  proof -
    have "2 ^ 52 * ?ulp \<le> ?q" unfolding ulp_e by (rule lo)
    then show ?thesis by (rule iffD2 [OF pos_le_divide_eq [OF ulp0]])
  qed
  have x_hi: "?x < 2 ^ 53"
  proof -
    have "?q < 2 ^ 53 * ?ulp" unfolding ulp_e1 by (rule hi)
    then show ?thesis by (rule iffD2 [OF pos_divide_less_eq [OF ulp0]])
  qed
  have m_lo: "2 ^ 52 \<le> ?m" using round_half_even_ge [of "2 ^ 52" ?x] x_lo by simp
  have m_hi: "?m \<le> 2 ^ 53" using round_half_even_le [of ?x "2 ^ 53"] x_hi by simp
  have r_lo: "2 powi ?e \<le> ?r"
  proof -
    have "(of_int (2 ^ 52) :: rat) \<le> of_int ?m" using m_lo by (simp only: of_int_le_iff)
    then have "(2::rat) ^ 52 \<le> of_int ?m" by simp
    then have "2 ^ 52 * ?ulp \<le> ?r" using ulp0 by (rule mult_right_mono [OF _ less_imp_le])
    then show ?thesis by (simp only: ulp_e)
  qed
  have r_hi: "?r \<le> 2 powi (?e + 1)"
  proof -
    have "(of_int ?m :: rat) \<le> of_int (2 ^ 53)" using m_hi by (simp only: of_int_le_iff)
    then have "(of_int ?m :: rat) \<le> 2 ^ 53" by simp
    then have "?r \<le> 2 ^ 53 * ?ulp" using ulp0 by (rule mult_right_mono [OF _ less_imp_le])
    then show ?thesis by (simp only: ulp_e1)
  qed
  have "?e + 1 \<le> 1" using e_le by simp
  then have "2 powi (?e + 1) \<le> (2::rat) powi 1" by (simp only: powi2_le_iff)
  with r_hi have "?r \<le> 2 powi 1" by (rule order_trans)
  also have "(2::rat) powi 1 < 2 powi 1024" by (simp only: powi2_less_iff)
  finally have "?r < 2 powi 1024" .
  then have val: "nearest_binary64 a b = Some ?r"
    using False by (simp add: nearest_binary64_def Let_def emax)
  have "5764607523034235 / 2 ^ 59 < ?r \<longleftrightarrow> b < 100 * a"
  proof (cases "b < 100 * a")
    case True
    have gt: "(1::rat) / 100 < ?q" using assms(1) True by (rule ratio_gt)
    have "- 7 \<le> ?e"
    proof -
      have "(2::rat) powi (- 7) < 1 / 100" by (simp add: power_int_minus_divide)
      also note gt
      also note hi
      finally have "- 7 < ?e + 1" by (simp only: powi2_less_iff)
      then show ?thesis by simp
    qed
    then consider "?e = - 7" | "- 6 \<le> ?e" by linarith
    then have "5764607523034235 / 2 ^ 59 < ?r"
    proof cases
      case 1
      have "of_int 5764607523034235 + 1 / 2 < ?q / 2 powi (- 59)"
        using assms(1,2) True by (rule scaled_above)
      then have "of_int 5764607523034235 + 1 / 2 < ?x" by (simp add: 1)
      then have "5764607523034235 + 1 \<le> ?m" by (rule round_half_even_above)
      then have "(of_int (5764607523034235 + 1) :: rat) \<le> of_int ?m" by (simp only: of_int_le_iff)
      then have "(5764607523034236 :: rat) \<le> of_int ?m" by simp
      then have "5764607523034236 * ?ulp \<le> ?r" using ulp0 by (rule mult_right_mono [OF _ less_imp_le])
      moreover have "5764607523034235 / 2 ^ 59 < 5764607523034236 * ?ulp"
        by (simp add: 1 power_int_minus_divide)
      ultimately show ?thesis by (rule less_le_trans [rotated])
    next
      case 2
      then have "(2::rat) powi (- 6) \<le> 2 powi ?e" by (simp only: powi2_le_iff)
      with r_lo have "2 powi (- 6) \<le> ?r" by (rule order_trans [rotated])
      moreover have "(5764607523034235 / 2 ^ 59 :: rat) < 2 powi (- 6)"
        by (simp add: power_int_minus_divide)
      ultimately show ?thesis by (rule less_le_trans [rotated])
    qed
    with True show ?thesis by simp
  next
    case False
    then have le: "100 * a \<le> b" by simp
    have qle: "?q \<le> 1 / 100" using assms(1) le by (rule ratio_le)
    have "?e \<le> - 7"
    proof -
      note lo
      also note qle
      also have "(1::rat) / 100 < 2 powi (- 6)" by (simp add: power_int_minus_divide)
      finally have "?e < - 6" by (simp only: powi2_less_iff)
      then show ?thesis by simp
    qed
    then consider "?e = - 7" | "?e \<le> - 8" by linarith
    then have "?r \<le> 5764607523034235 / 2 ^ 59"
    proof cases
      case 1
      have "?q / 2 powi (- 59) < of_int 5764607523034235 + 1 / 2"
        using assms(1) le by (rule scaled_below)
      then have "?x < of_int 5764607523034235 + 1 / 2" by (simp add: 1)
      then have "?m \<le> 5764607523034235" by (rule round_half_even_below)
      then have "(of_int ?m :: rat) \<le> of_int 5764607523034235" by (simp only: of_int_le_iff)
      then have "?r \<le> of_int 5764607523034235 * ?ulp"
        using ulp0 by (rule mult_right_mono [OF _ less_imp_le])
      also have "of_int 5764607523034235 * ?ulp = 5764607523034235 / 2 ^ 59"
        by (simp add: 1 power_int_minus_divide)
      finally show ?thesis .
    next
      case 2
      then have "?e + 1 \<le> - 7" by simp
      then have "(2::rat) powi (?e + 1) \<le> 2 powi (- 7)" by (simp only: powi2_le_iff)
      with r_hi have "?r \<le> 2 powi (- 7)" by (rule order_trans)
      also have "(2::rat) powi (- 7) \<le> 5764607523034235 / 2 ^ 59"
        by (simp add: power_int_minus_divide)
      finally show ?thesis .
    qed
    with False show ?thesis by simp
  qed
  with val show ?thesis by simp
qed

lemma float_0_01_value: "float_0_01 = 5764607523034235 / 2 ^ 59"
  unfolding float_0_01_def nearest_binary64_0_01 by simp

subsection \<open>Whole jobs\<close>

text \<open>
  \<open>process_pdf\<close> on one-page and two-page documents: a page that is not music leaves an
  empty index, no temporary file, and no subprocess run; a page with full metadata gives
  the entry of its title, a narration with no fallback clause, and no temporary file; a
  score without title gives the placeholder's entry; a page on which the OMR tool fails
  does not keep the next page from its entry.
\<close>

lemma scenario_not_music:
  "fst (process_pdf (env_of [page_not_music]) ''score.pdf'' ''output_audio'' world_start) = Inr []"
  "list_all (\<lambda>f. \<not> os_path_exists f
        (snd (process_pdf (env_of [page_not_music]) ''score.pdf'' ''output_audio'' world_start)))
     (temp_files ''ab12'' 0)"
  "calls (snd (process_pdf (env_of [page_not_music]) ''score.pdf'' ''output_audio'' world_start))
     = [Convert_from_path ''score.pdf'']"
  by code_simp+

lemma scenario_full_metadata:
  "fst (process_pdf (env_of [page_ok]) ''score.pdf'' ''output_audio'' world_start)
     = Inr [(''Ode'', ''Ode_narrado.wav'')]"
  "generate_narration_text score_full ''Ode'' =
     ''A seguir, voc'' @ [e_circ] @ '' ouvir'' @ [a_acute] @ '' a pe'' @ [c_cedilla] @ ''a Ode. ''
     @ ''Esta pe'' @ [c_cedilla] @ ''a est'' @ [a_acute] @ '' na tonalidade de C major. ''
     @ ''O compasso '' @ [e_acute] @ '' 4/4. ''
     @ ''O andamento '' @ [e_acute] @ '' de 120 batidas por minuto. ''
     @ closing_remark"
  "list_all (\<lambda>f. \<not> os_path_exists f
        (snd (process_pdf (env_of [page_ok]) ''score.pdf'' ''output_audio'' world_start)))
     (temp_files ''ab12'' 0)"
  by code_simp+

lemma scenario_no_title:
  "fst (process_pdf (env_of [page_ok\<lparr>converter_parse := (\<lambda>_. Inr score_bare)\<rparr>]) ''score.pdf''
          ''output_audio'' world_start)
     = Inr [(''Partitura_ab12_0'', ''Partitura_ab12_0_narrado.wav'')]"
  by code_simp

lemma scenario_omr_fails:
  "fst (process_pdf (env_of [page_omr_fails, page_later]) ''score.pdf'' ''output_audio'' world_start)
     = Inr [(''Ode'', ''Ode_narrado.wav'')]"
  by code_simp

section \<open>The claims\<close>

text \<open>
  C1. After a page on which a stage after classification fails, none of the page's
  temporary files is left. This fails when the synthesis engine exits with a non-zero
  status: the handler of lines 181-184 removes the page image and continues with the next
  page, so lines 206-217 are not reached. On a one-page document whose page passes OMR,
  parsing and MIDI rendering and then fails synthesis, the job returns an empty index and
  the page's \<open>.xml\<close> and \<open>.mid\<close> files, which did not exist before, are still there.
\<close>

theorem synthesis_failure_leaks_temp_files:
  "fst (process_pdf (env_of [page_synthesis_fails]) ''score.pdf'' ''output_audio'' world_start) = Inr []
   \<and> files (snd (process_pdf (env_of [page_synthesis_fails]) ''score.pdf'' ''output_audio'' world_start))
        ''temp_page_ab12_0.xml'' = Some Data
   \<and> files (snd (process_pdf (env_of [page_synthesis_fails]) ''score.pdf'' ''output_audio'' world_start))
        ''temp_page_ab12_0.mid'' = Some Data
   \<and> ''temp_page_ab12_0.xml'' \<in> set (temp_files (temp_id page_synthesis_fails) 0)
   \<and> ''temp_page_ab12_0.mid'' \<in> set (temp_files (temp_id page_synthesis_fails) 0)
   \<and> files world_start ''temp_page_ab12_0.xml'' = None
   \<and> files world_start ''temp_page_ab12_0.mid'' = None"
  by code_simp










text \<open>
  C5. When the sound-font path does not exist, \<open>process_pdf\<close> raises the job-level
  exception at once: it returns no index, and the world is as it was, so the document was
  not rasterized, no subprocess was run and no file was written.
\<close>

theorem soundfont_missing_aborts_job:
  assumes "\<not> os_path_exists (SOUNDFONT_PATH env) w"
  shows "process_pdf env pdf_path output_dir w =
           (Inl (Exception (''SoundFont n'' @ [a_tilde] @ ''o encontrado em '' @ SOUNDFONT_PATH env
                            @ ''.'')), w)"
  using assms by (simp add: process_pdf_def)

theorem soundfont_missing_aborts_job_witness:
  "process_pdf (env_of [page_ok]) ''score.pdf'' ''output_audio'' world_no_soundfont =
     (Inl (Exception (''SoundFont n'' @ [a_tilde] @ ''o encontrado em ''
                      @ SOUNDFONT_PATH (env_of [page_ok]) @ ''.'')), world_no_soundfont)"
  by (rule soundfont_missing_aborts_job) (simp add: os_path_exists_def world_no_soundfont_def)

text \<open>
  C7. On a page that \<open>is_sheet_music\<close> classifies as not music, no subprocess is run (so
  the OMR tool is not invoked) and the index is returned as it was.
\<close>

theorem non_music_page_skipped:
  assumes "\<not> sheet_music p"
  shows "\<exists>w'. process_page env output_dir i p narrated_scores w = (Inr narrated_scores, w')
              \<and> calls w' = calls w"
  using assms by (simp add: process_page_not_sheet)

theorem non_music_page_skipped_witness:
  "\<exists>w'. process_page (env_of [page_not_music]) ''output_audio'' 0 page_not_music [] world_start
           = (Inr [], w') \<and> calls w' = calls world_start"
  by (rule non_music_page_skipped) (simp add: page_not_music_def)

text \<open>
  C8. The recognized score looked for after the OMR tool is the page's base name with
  \<open>.xml\<close> when that file exists, else with \<open>.mxl\<close> when that one exists, else none. When
  the tool exits with status 0 and neither file exists, the page ends without an entry in
  the index, and without an exception.
\<close>

theorem recognized_score_path:
  "find_musicxml_file (fst (os_path_splitext (temp_page t i @ ''.png''))) w =
     (if os_path_exists (temp_page t i @ ''.xml'') w then Some (temp_page t i @ ''.xml'')
      else if os_path_exists (temp_page t i @ ''.mxl'') w then Some (temp_page t i @ ''.mxl'')
      else None)
   \<and> (sheet_music p \<and> audiveris_returncode p = 0 \<and>
        audiveris_xml p = None \<and> audiveris_mxl p = None \<and>
        \<not> os_path_exists (temp_page (temp_id p) i @ ''.xml'') w0 \<and>
        \<not> os_path_exists (temp_page (temp_id p) i @ ''.mxl'') w0
      \<longrightarrow> (\<exists>w'. process_page env output_dir i p narrated_scores w0 = (Inr narrated_scores, w')))"
  using process_page_missing_output [of p i w0 env output_dir narrated_scores]
  by (simp add: base_name find_musicxml_file_def)

theorem recognized_score_path_witness:
  "find_musicxml_file (fst (os_path_splitext (temp_page ''ab12'' 0 @ ''.png'')))
       (write_file ''temp_page_ab12_0.mxl'' Data (write_file ''temp_page_ab12_0.xml'' Data world_start)) =
     Some ''temp_page_ab12_0.xml''
   \<and> (\<exists>w'. process_page (env_of [page_omr_silent]) ''output_audio'' 0 page_omr_silent
              [(''Ode'', ''Ode_narrado.wav'')] world_start = (Inr [(''Ode'', ''Ode_narrado.wav'')], w'))"
proof -
  have t: "temp_page ''ab12'' 0 = ''temp_page_ab12_0''" by code_simp
  have h: "sheet_music page_omr_silent \<and> audiveris_returncode page_omr_silent = 0 \<and>
        audiveris_xml page_omr_silent = None \<and> audiveris_mxl page_omr_silent = None \<and>
        \<not> os_path_exists (temp_page (temp_id page_omr_silent) 0 @ ''.xml'') world_start \<and>
        \<not> os_path_exists (temp_page (temp_id page_omr_silent) 0 @ ''.mxl'') world_start"
    by (simp add: page_omr_silent_def page_ok_def t os_path_exists_def world_start_def)
  have e: "os_path_exists ''temp_page_ab12_0.xml''
     (write_file ''temp_page_ab12_0.mxl'' Data (write_file ''temp_page_ab12_0.xml'' Data world_start))"
    by simp
  show ?thesis
    using recognized_score_path [of "''ab12''" 0
        "write_file ''temp_page_ab12_0.mxl'' Data (write_file ''temp_page_ab12_0.xml'' Data world_start)"
        page_omr_silent world_start "env_of [page_omr_silent]" "''output_audio''"
        "[(''Ode'', ''Ode_narrado.wav'')]"] h e
    by (simp add: t)
qed

text \<open>
  C10. The index has one entry for a title. When a page completes with a title, the index
  maps that title to the page's file name; if the title was already a key, the keys are
  as they were (the entry is overwritten in place, not duplicated) and every other title
  keeps its entry. No exception is raised: the job returns an index whose keys are
  distinct, each mapped to the key followed by \<open>_narrado.wav\<close>. On two pages that both
  resolve to the title \<open>Ode\<close>, the index is \<open>{"Ode": "Ode_narrado.wav"}\<close> and the file holds
  the later page's audio.
\<close>

theorem title_collision_overwrites:
  assumes "page_try env output_dir i p image_filename musicxml_file narrated_scores w
             = (Inr (Completed, narrated_scores'), w')"
    and "distinct (map fst narrated_scores)"
    and "os_path_exists (SOUNDFONT_PATH env) w0"
    and "convert_from_path env pdf_path = Inr pages"
  shows "(\<exists>title. map_of narrated_scores' title = Some (title @ ''_narrado.wav'')
            \<and> distinct (map fst narrated_scores')
            \<and> (title \<in> set (map fst narrated_scores)
                 \<longrightarrow> map fst narrated_scores' = map fst narrated_scores)
            \<and> (\<forall>t. t \<noteq> title \<longrightarrow> map_of narrated_scores' t = map_of narrated_scores t))
       \<and> (\<exists>result w1. process_pdf env pdf_path output_dir w0 = (Inr result, w1)
            \<and> distinct (map fst result)
            \<and> (\<forall>(t, f) \<in> set result. f = t @ ''_narrado.wav''))"
proof -
  from page_try_completed [OF assms(1)] obtain title where
    idx: "narrated_scores' = AList.update title (title @ ''_narrado.wav'') narrated_scores"
    unfolding dict_set_def by blast
  have "map_of narrated_scores' title = Some (title @ ''_narrado.wav'')"
    by (simp add: idx update_conv')
  moreover have "distinct (map fst narrated_scores')"
    using assms(2) by (simp add: idx distinct_update)
  moreover have "title \<in> set (map fst narrated_scores)
                 \<longrightarrow> map fst narrated_scores' = map fst narrated_scores"
    by (simp add: idx update_keys)
  moreover have "\<forall>t. t \<noteq> title \<longrightarrow> map_of narrated_scores' t = map_of narrated_scores t"
    by (simp add: idx update_conv')
  ultimately have step: "\<exists>title. map_of narrated_scores' title = Some (title @ ''_narrado.wav'')
            \<and> distinct (map fst narrated_scores')
            \<and> (title \<in> set (map fst narrated_scores)
                 \<longrightarrow> map fst narrated_scores' = map fst narrated_scores)
            \<and> (\<forall>t. t \<noteq> title \<longrightarrow> map_of narrated_scores' t = map_of narrated_scores t)"
    by blast
  have "\<exists>idx' w'. process_pages env output_dir 0 pages [] (w0\<lparr>calls := calls w0 @ [Convert_from_path pdf_path]\<rparr>)
           = (Inr idx', w') \<and> distinct (map fst idx')
           \<and> (\<forall>t f. (t, f) \<in> set idx' \<longrightarrow> f = t @ ''_narrado.wav'')"
    by (rule process_pages_index_invariant) simp_all
  then have job: "\<exists>result w1. process_pdf env pdf_path output_dir w0 = (Inr result, w1)
            \<and> distinct (map fst result)
            \<and> (\<forall>(t, f) \<in> set result. f = t @ ''_narrado.wav'')"
    using assms(3,4) by (auto simp: process_pdf_def Let_def)
  from step job show ?thesis by blast
qed

theorem title_collision_overwrites_witness:
  "(\<exists>title. map_of [(''Ode'', ''Ode_narrado.wav'')] title = Some (title @ ''_narrado.wav'')
            \<and> distinct (map fst [(''Ode'', ''Ode_narrado.wav'')])
            \<and> (title \<in> set (map fst [(''Ode'', ''Ode_narrado.wav'')])
                 \<longrightarrow> map fst [(''Ode'', ''Ode_narrado.wav'')] = map fst [(''Ode'', ''Ode_narrado.wav'')])
            \<and> (\<forall>t. t \<noteq> title \<longrightarrow> map_of [(''Ode'', ''Ode_narrado.wav'')] t
                                     = map_of [(''Ode'', ''Ode_narrado.wav'')] t))
   \<and> (\<exists>result w1. process_pdf (env_of [page_ok, page_later]) ''score.pdf'' ''output_audio'' world_start
                     = (Inr result, w1)
            \<and> distinct (map fst result)
            \<and> (\<forall>(t, f) \<in> set result. f = t @ ''_narrado.wav''))
   \<and> fst (process_pdf (env_of [page_ok, page_later]) ''score.pdf'' ''output_audio'' world_start)
       = Inr [(''Ode'', ''Ode_narrado.wav'')]
   \<and> files (snd (process_pdf (env_of [page_ok, page_later]) ''score.pdf'' ''output_audio'' world_start))
        ''output_audio/Ode_narrado.wav'' = Some (Wav ([1, 2] @ replicate 1000 0 @ [8, 9]))"
proof -
  have "fst (page_try (env_of [page_ok, page_later]) ''output_audio'' 1 page_later
               ''temp_page_cd34_1.png'' ''temp_page_cd34_1.xml'' [(''Ode'', ''Ode_narrado.wav'')] world_start)
          = Inr (Completed, [(''Ode'', ''Ode_narrado.wav'')])"
    by code_simp
  then have 1: "page_try (env_of [page_ok, page_later]) ''output_audio'' 1 page_later
               ''temp_page_cd34_1.png'' ''temp_page_cd34_1.xml'' [(''Ode'', ''Ode_narrado.wav'')] world_start
          = (Inr (Completed, [(''Ode'', ''Ode_narrado.wav'')]),
             snd (page_try (env_of [page_ok, page_later]) ''output_audio'' 1 page_later
               ''temp_page_cd34_1.png'' ''temp_page_cd34_1.xml'' [(''Ode'', ''Ode_narrado.wav'')] world_start))"
    by (simp add: prod_eq_iff)
  have 2: "distinct (map fst [(''Ode'', ''Ode_narrado.wav'')])" by simp
  have 3: "os_path_exists (SOUNDFONT_PATH (env_of [page_ok, page_later])) world_start"
    by (simp add: env_of_def world_start_def os_path_exists_def)
  have 4: "convert_from_path (env_of [page_ok, page_later]) ''score.pdf'' = Inr [page_ok, page_later]"
    by (simp add: env_of_def)
  have 5: "fst (process_pdf (env_of [page_ok, page_later]) ''score.pdf'' ''output_audio'' world_start)
       = Inr [(''Ode'', ''Ode_narrado.wav'')]
   \<and> files (snd (process_pdf (env_of [page_ok, page_later]) ''score.pdf'' ''output_audio'' world_start))
        ''output_audio/Ode_narrado.wav'' = Some (Wav ([1, 2] @ replicate 1000 0 @ [8, 9]))"
    by code_simp
  from title_collision_overwrites [OF 1 2 3 4] 5
  show ?thesis by blast
qed

text \<open>
  C9. \<open>is_sheet_music\<close> returns \<open>True\<close> exactly when the number of non-zero pixels left by
  grayscale conversion, inverse binarization at 127 and two iterations of opening with
  the 25 by 1 rectangle, divided by the number of pixels of the page (rows times columns),
  is strictly above 1/100. The division and the comparison are made on doubles; they
  decide as the exact quotient does on every page of at least one and fewer than \<open>2\<^sup>5\<^sup>3\<close>
  pixels of which the opening leaves no more pixels than the page has.
\<close>

theorem sheet_music_threshold:
  assumes "shape cv img = (rows, cols)"
    and "0 < rows * cols" and "rows * cols < 2 ^ 53"
    and "line_pixels = countNonZero cv
           (morphologyEx_OPEN cv
              (threshold_BINARY_INV cv (cvtColor_BGR2GRAY cv img) 127 255)
              (getStructuringElement_RECT cv (25, 1)) 2)"
    and "line_pixels \<le> rows * cols"
  shows "is_sheet_music cv img
           = Inr ((1::rat) / 100 < of_nat line_pixels / of_nat (rows * cols))"
proof -
  from nearest_binary64_threshold [OF assms(2,3,5)] obtain r where
    r: "nearest_binary64 line_pixels (rows * cols) = Some r"
    and iff: "5764607523034235 / 2 ^ 59 < r \<longleftrightarrow> rows * cols < 100 * line_pixels"
    by blast
  have "(rows * cols < 100 * line_pixels)
          = ((1::rat) / 100 < of_nat line_pixels / of_nat (rows * cols))"
    using ratio_gt [OF assms(2), of line_pixels] ratio_le [OF assms(2), of line_pixels]
    by (cases "rows * cols < 100 * line_pixels") (simp_all add: not_less)
  with iff have "(float_0_01 < r)
          = ((1::rat) / 100 < of_nat line_pixels / of_nat (rows * cols))"
    by (simp only: float_0_01_value)
  moreover have "true_divide line_pixels (rows * cols) = Inr r"
    using assms(2) r by (simp add: true_divide_def)
  ultimately show ?thesis
    unfolding is_sheet_music_def Let_def assms(1) fst_conv snd_conv assms(4) [symmetric]
    by (simp only: sum.case)
qed

theorem sheet_music_threshold_witness:
  "is_sheet_music (cv2_leaving 3 (10, 20)) () = Inr ((1::rat) / 100 < of_nat 3 / of_nat (10 * 20))
   \<and> is_sheet_music (cv2_leaving 2 (10, 20)) () = Inr ((1::rat) / 100 < of_nat 2 / of_nat (10 * 20))"
proof -
  have "is_sheet_music (cv2_leaving 3 (10, 20)) () = Inr ((1::rat) / 100 < of_nat 3 / of_nat (10 * 20))"
    by (rule sheet_music_threshold) (simp_all add: cv2_leaving_def)
  moreover have "is_sheet_music (cv2_leaving 2 (10, 20)) () = Inr ((1::rat) / 100 < of_nat 2 / of_nat (10 * 20))"
    by (rule sheet_music_threshold) (simp_all add: cv2_leaving_def)
  ultimately show ?thesis by blast
qed

end
